theory Spec2Isabelle
  imports Complex_Main "HOL-Library.Word"
begin

section \<open>Strings, errors and the page state of script.js\<close>

text \<open>
  Class names, style values, selectors and key names are ASCII and are kept as
  \<open>string\<close>. Text typed by the user and notification messages are JavaScript strings:
  lists of 16-bit code units, which is what a regular expression without the \<open>u\<close>
  flag reads.
\<close>

type_synonym code_unit = "16 word"
type_synonym jsstring = "code_unit list"

definition js :: "string \<Rightarrow> jsstring" where
  "js s = map of_char s"

datatype error = TypeError | SyntaxError

text \<open>The \<open>config\<close> object (lines 33-37).\<close>

record config =
  scrollThreshold :: real
  animationDelay :: nat
  intersectionThreshold :: real

definition config :: config where
  "config = \<lparr>scrollThreshold = 100, animationDelay = 100, intersectionThreshold = 2 / 10\<rparr>"

text \<open>
  A \<open>classList\<close> is an ordered set of tokens: \<open>add\<close> appends a token that is not
  there yet, \<open>remove\<close> deletes it, \<open>contains\<close> is membership.
\<close>

definition classList_add :: "string \<Rightarrow> string list \<Rightarrow> string list" where
  "classList_add c cs = (if c \<in> set cs then cs else cs @ [c])"

definition classList_remove :: "string \<Rightarrow> string list \<Rightarrow> string list" where
  "classList_remove c cs = filter (\<lambda>x. x \<noteq> c) cs"

definition classList_contains :: "string \<Rightarrow> string list \<Rightarrow> bool" where
  "classList_contains c cs = (c \<in> set cs)"

text \<open>
  The elements the script looks up once (the \<open>elements\<close> object, lines 17-26).
  \<open>getElementById\<close> and \<open>querySelector\<close> return null when nothing matches: an
  \<open>option\<close>. \<open>querySelectorAll\<close> always returns a list.
\<close>

record element =
  classList :: "string list"
  offsetHeight :: int

text \<open>
  The modal root and the first \<open>.modal__input\<close> inside it: \<open>None\<close> when the modal
  has no such input, otherwise whether that input has the focus.
\<close>

record modal_element =
  modalClassList :: "string list"
  modalInput :: "bool option"

record field =
  fieldValue :: jsstring
  defaultValue :: jsstring

text \<open>
  The waitlist form with the results of \<open>querySelector('input[type="text"]')\<close> and
  \<open>querySelector('input[type="email"]')\<close> on it.
\<close>

record form =
  textInput :: "field option"
  emailInput :: "field option"

record elements =
  header :: "element option"
  backToTop :: "string list option"
  modal :: "modal_element option"
  modalOverlay :: bool
  modalClose :: bool
  waitlistForm :: "form option"
  modalTriggers :: nat
  bannerLetters :: "string list"

text \<open>A notification element created by \<open>showNotification\<close>.\<close>

record notification =
  node :: nat
  className :: string
  message :: jsstring
  background :: string
  opacity :: string
  transform :: string
  transition :: string

text \<open>Callbacks handed to \<open>setTimeout\<close>, kept with their delay in milliseconds.\<close>

datatype task =
    FocusFirstInput
  | CloseModal
  | FadeNotification nat
  | RemoveNotification nat

text \<open>An element watched by the reveal animator: its classes and inline style.\<close>

record revealed =
  revealClassList :: "string list"
  revealOpacity :: string
  revealTransform :: string
  revealTransition :: string
  animationDelayMs :: "nat option"

text \<open>
  What \<open>document.querySelector\<close> answers for a selector: a \<open>SyntaxError\<close> for an
  invalid selector, null, or the first matching element (its \<open>offsetTop\<close>).
\<close>

datatype query = InvalidSelector | NoMatch | Match int

text \<open>An IntersectionObserverEntry: the element and whether it intersects.\<close>

record entry =
  target :: nat
  isIntersecting :: bool

datatype eventTarget = Window | Document | BackToTopButton | Trigger nat | ModalCloseButton
  | ModalOverlay | WaitlistForm | Anchor nat | Letter nat

datatype handler = OnScroll | ScrollToTop | OpenModal | CloseModalHandler | HandleFormSubmit
  | HandleKeyboard | AnchorClick | LetterEnter | LetterLeave

datatype logline = FormSubmitted jsstring jsstring | Initialized

text \<open>
  The whole mutable state the script reads and writes. \<open>querySelector\<close> is the
  browser's answer to \<open>document.querySelector(href)\<close> for an anchor's href, with the
  \<open>offsetTop\<close> of the match; \<open>notifications\<close> are the elements of the document
  matching \<open>.notification\<close>, in document order; \<open>headStyles\<close> are the style elements
  the script appended to the head; \<open>defaultPrevented\<close> is the flag of the event being
  dispatched.
\<close>

record page =
  els :: elements
  scrollY :: "real option"
  pageYOffset :: real
  innerHeight :: real
  hero :: "real option option"
  bodyOverflow :: string
  notifications :: "notification list"
  headStyles :: "string list"
  timers :: "(nat \<times> task) list"
  nextNode :: nat
  defaultPrevented :: bool
  scrollRequests :: "int list"
  querySelector :: "string \<Rightarrow> query"
  anchors :: "string list"
  intersectionObserver :: bool
  animatedElements :: "nat list"
  styles :: "nat \<Rightarrow> revealed"
  observed :: "nat set"
  listeners :: "(eventTarget \<times> string \<times> handler) list"
  ticking :: bool
  frameRequests :: nat
  console :: "logline list"

text \<open>
  A handler either returns or throws; what it changed before throwing stays changed,
  so both outcomes carry the page.
\<close>

datatype outcome = Returned page | Thrown error page

fun after :: "outcome \<Rightarrow> page" where
  "after (Returned s) = s"
| "after (Thrown e s) = s"

fun throws :: "outcome \<Rightarrow> bool" where
  "throws (Returned s) = False"
| "throws (Thrown e s) = True"

fun andThen :: "outcome \<Rightarrow> (page \<Rightarrow> outcome) \<Rightarrow> outcome" where
  "andThen (Returned s) f = f s"
| "andThen (Thrown e s) f = Thrown e s"

section \<open>Header and back-to-top button on scroll\<close>

text \<open>\<open>window.scrollY || window.pageYOffset\<close>: an undefined or zero \<open>scrollY\<close> is falsy.\<close>

definition readScroll :: "page \<Rightarrow> real" where
  "readScroll s =
     (case scrollY s of
        None \<Rightarrow> pageYOffset s
      | Some y \<Rightarrow> if y = 0 then pageYOffset s else y)"

definition handleHeaderScroll :: "page \<Rightarrow> outcome" where
  "handleHeaderScroll s =
     (case header (els s) of
        None \<Rightarrow> Thrown TypeError s
      | Some h \<Rightarrow>
          if readScroll s > scrollThreshold config
          then Returned (s\<lparr>els := (els s)\<lparr>header :=
                 Some (h\<lparr>classList := classList_add ''header--scrolled'' (classList h)\<rparr>)\<rparr>\<rparr>)
          else Returned (s\<lparr>els := (els s)\<lparr>header :=
                 Some (h\<lparr>classList := classList_remove ''header--scrolled'' (classList h)\<rparr>)\<rparr>\<rparr>))"

definition handleBackToTopVisibility :: "page \<Rightarrow> outcome" where
  "handleBackToTopVisibility s =
     (case backToTop (els s) of
        None \<Rightarrow> Thrown TypeError s
      | Some b \<Rightarrow>
          if readScroll s > scrollThreshold config * 3
          then Returned (s\<lparr>els := (els s)\<lparr>backToTop :=
                 Some (classList_add ''footer__back-to-top--visible'' b)\<rparr>\<rparr>)
          else Returned (s\<lparr>els := (els s)\<lparr>backToTop :=
                 Some (classList_remove ''footer__back-to-top--visible'' b)\<rparr>\<rparr>))"

definition scrollToTop :: "page \<Rightarrow> outcome" where
  "scrollToTop s = Returned (s\<lparr>scrollRequests := scrollRequests s @ [0]\<rparr>)"

section \<open>Modal\<close>

definition setTimeout :: "task \<Rightarrow> nat \<Rightarrow> page \<Rightarrow> page" where
  "setTimeout f delay s = s\<lparr>timers := timers s @ [(delay, f)]\<rparr>"

definition openModal :: "page \<Rightarrow> outcome" where
  "openModal s =
     (case modal (els s) of
        None \<Rightarrow> Thrown TypeError s
      | Some m \<Rightarrow>
          (let s1 = s\<lparr>els := (els s)\<lparr>modal :=
                      Some (m\<lparr>modalClassList := classList_add ''modal--active'' (modalClassList m)\<rparr>)\<rparr>,
                    bodyOverflow := ''hidden''\<rparr>
           in case modalInput m of
                None \<Rightarrow> Returned s1
              | Some focused \<Rightarrow> Returned (setTimeout FocusFirstInput 300 s1)))"

definition closeModal :: "page \<Rightarrow> outcome" where
  "closeModal s =
     (case modal (els s) of
        None \<Rightarrow> Thrown TypeError s
      | Some m \<Rightarrow>
          Returned (s\<lparr>els := (els s)\<lparr>modal :=
                      Some (m\<lparr>modalClassList := classList_remove ''modal--active'' (modalClassList m)\<rparr>)\<rparr>,
                    bodyOverflow := []\<rparr>))"

definition handleKeyboard :: "string \<Rightarrow> page \<Rightarrow> outcome" where
  "handleKeyboard key s =
     (if key = ''Escape''
      then (case modal (els s) of
              None \<Rightarrow> Thrown TypeError s
            | Some m \<Rightarrow>
                if classList_contains ''modal--active'' (modalClassList m)
                then closeModal s else Returned s)
      else Returned s)"

section \<open>Notifications\<close>

definition slideDownKeyframes :: string where
  "slideDownKeyframes = ''@keyframes slideDown { from { opacity: 0; transform: translateX(-50%) translateY(-20px); } to { opacity: 1; transform: translateX(-50%) translateY(0); } }''"

text \<open>
  \<open>showNotification(message, type = 'success')\<close>: the first element matching
  \<open>.notification\<close> is removed when there is one, a new element and a new style element
  are created and appended to the body and the head, and the fade-out is scheduled.
  The message is interpolated into the element's \<open>innerHTML\<close>; it is kept here as the
  element's text, which is what that gives for a message without markup, as the
  three messages the script passes are.
\<close>

definition showNotification :: "jsstring \<Rightarrow> string option \<Rightarrow> page \<Rightarrow> page" where
  "showNotification msg typeArg s =
     (let type = (case typeArg of None \<Rightarrow> ''success'' | Some t \<Rightarrow> t);
          remaining = (case notifications s of [] \<Rightarrow> [] | existing # others \<Rightarrow> others);
          created = \<lparr>node = nextNode s,
                     className = ''notification notification--'' @ type,
                     message = msg,
                     background = (if type = ''success'' then ''#4cd137'' else ''#ff6b6b''),
                     opacity = [],
                     transform = ''translateX(-50%)'',
                     transition = []\<rparr>
      in setTimeout (FadeNotification (nextNode s)) 3000
           (s\<lparr>notifications := remaining @ [created],
              headStyles := headStyles s @ [slideDownKeyframes],
              nextNode := Suc (nextNode s)\<rparr>))"

text \<open>
  The callbacks of the timers, run when a timer fires. The fade-out restyles its
  notification whether or not it is still in the document; only the ones in the
  document are kept here. Any pending timer may fire next: timers are not ordered by
  their delay, which allows every order the browser can produce.
\<close>

fun runTask :: "task \<Rightarrow> page \<Rightarrow> outcome" where
  "runTask FocusFirstInput s =
     Returned (s\<lparr>els := (els s)\<lparr>modal :=
       map_option (\<lambda>m. m\<lparr>modalInput := map_option (\<lambda>focused. True) (modalInput m)\<rparr>)
         (modal (els s))\<rparr>\<rparr>)"
| "runTask CloseModal s = closeModal s"
| "runTask (FadeNotification n) s =
     Returned (setTimeout (RemoveNotification n) 300
       (s\<lparr>notifications :=
            map (\<lambda>x. if node x = n
                     then x\<lparr>opacity := ''0'',
                            transform := ''translateX(-50%) translateY(-20px)'',
                            transition := ''all 0.3s ease''\<rparr>
                     else x) (notifications s)\<rparr>))"
| "runTask (RemoveNotification n) s =
     Returned (s\<lparr>notifications := filter (\<lambda>x. node x \<noteq> n) (notifications s)\<rparr>)"

definition timeout :: "nat \<Rightarrow> page \<Rightarrow> outcome" where
  "timeout i s =
     (if i < length (timers s)
      then runTask (snd (timers s ! i)) (s\<lparr>timers := take i (timers s) @ drop (Suc i) (timers s)\<rparr>)
      else Returned s)"

section \<open>Form validation\<close>

text \<open>
  The regular expression \<open>/^[^\s@]+@[^\s@]+\.[^\s@]+$/\<close> as a list of pieces, matched
  against the whole string with backtracking. \<open>\s\<close> is the white space and line
  terminators of ECMAScript.
\<close>

definition whiteSpace :: "code_unit \<Rightarrow> bool" where
  "whiteSpace c =
     (c \<in> {0x9, 0xA, 0xB, 0xC, 0xD, 0x20, 0xA0, 0x1680, 0x2028, 0x2029, 0x202F, 0x205F,
            0x3000, 0xFEFF}
      \<or> (0x2000 \<le> c \<and> c \<le> 0x200A))"

datatype atom = Unit code_unit | NotSpaceNorAt

datatype piece = Once atom | OneOrMore atom

fun atomMatches :: "atom \<Rightarrow> code_unit \<Rightarrow> bool" where
  "atomMatches (Unit u) c = (c = u)"
| "atomMatches NotSpaceNorAt c = (\<not> whiteSpace c \<and> c \<noteq> 0x40)"

fun regexMatches :: "piece list \<Rightarrow> jsstring \<Rightarrow> bool" where
  "regexMatches [] cs = (cs = [])"
| "regexMatches (Once a # ps) [] = False"
| "regexMatches (Once a # ps) (c # cs) = (atomMatches a c \<and> regexMatches ps cs)"
| "regexMatches (OneOrMore a # ps) [] = False"
| "regexMatches (OneOrMore a # ps) (c # cs) =
     (atomMatches a c \<and> (regexMatches (OneOrMore a # ps) cs \<or> regexMatches ps cs))"

definition emailRegex :: "piece list" where
  "emailRegex = [OneOrMore NotSpaceNorAt, Once (Unit 0x40), OneOrMore NotSpaceNorAt,
                 Once (Unit 0x2E), OneOrMore NotSpaceNorAt]"

definition fillInAllFields :: jsstring where
  "fillInAllFields = js ''Please fill in all fields''"

definition enterValidEmail :: jsstring where
  "enterValidEmail = js ''Please enter a valid email address''"

text \<open>The success message ends with U+1F389, two code units.\<close>

definition welcomeMessage :: jsstring where
  "welcomeMessage = js ''Welcome to the Mojik family! '' @ [0xD83C, 0xDF89]"

definition resetField :: "field \<Rightarrow> field" where
  "resetField f = f\<lparr>fieldValue := defaultValue f\<rparr>"

definition reset :: "form \<Rightarrow> form" where
  "reset f = f\<lparr>textInput := map_option resetField (textInput f),
               emailInput := map_option resetField (emailInput f)\<rparr>"

text \<open>\<open>event.target\<close> is the waitlist form, the only element the handler is attached to.\<close>

definition handleFormSubmit :: "form \<Rightarrow> page \<Rightarrow> outcome" where
  "handleFormSubmit tgt s =
     (let s1 = s\<lparr>defaultPrevented := True\<rparr> in
      case textInput tgt of
        None \<Rightarrow> Thrown TypeError s1
      | Some t \<Rightarrow>
          (case emailInput tgt of
             None \<Rightarrow> Thrown TypeError s1
           | Some e \<Rightarrow>
               (let name = fieldValue t; email = fieldValue e in
                if name = [] \<or> email = []
                then Returned (showNotification fillInAllFields (Some ''error'') s1)
                else if \<not> regexMatches emailRegex email
                then Returned (showNotification enterValidEmail (Some ''error'') s1)
                else
                  (let s2 = s1\<lparr>console := console s1 @ [FormSubmitted name email]\<rparr>;
                       s3 = showNotification welcomeMessage (Some ''success'') s2;
                       s4 = s3\<lparr>els := (els s3)\<lparr>waitlistForm := Some (reset tgt)\<rparr>\<rparr>
                   in Returned (setTimeout CloseModal 1500 s4)))))"

section \<open>Reveal animator\<close>

definition animateInRule :: string where
  "animateInRule = ''.animate-in { opacity: 1 !important; transform: translateY(0) !important; }''"

text \<open>
  The body of the observer's callback for one intersecting entry at position
  \<open>index\<close> of the \<open>entries\<close> array. The delay is the number in front of \<open>ms\<close>.
\<close>

definition revealEntry :: "nat \<Rightarrow> nat \<Rightarrow> page \<Rightarrow> page" where
  "revealEntry index t s =
     s\<lparr>styles := (styles s)(t := (styles s t)
            \<lparr>revealClassList := classList_add ''animate-in'' (revealClassList (styles s t)),
             animationDelayMs := Some (index * animationDelay config)\<rparr>),
       observed := observed s - {t}\<rparr>"

text \<open>\<open>entries.forEach((entry, index) => ...)\<close>, from position \<open>index\<close> on.\<close>

fun forEachEntry :: "nat \<Rightarrow> entry list \<Rightarrow> page \<Rightarrow> page" where
  "forEachEntry index [] s = s"
| "forEachEntry index (e # es) s =
     forEachEntry (Suc index) es
       (if isIntersecting e then revealEntry index (target e) s else s)"

definition observerCallback :: "entry list \<Rightarrow> page \<Rightarrow> page" where
  "observerCallback entries s = forEachEntry 0 entries s"

definition observeElement :: "nat \<Rightarrow> page \<Rightarrow> page" where
  "observeElement el s =
     s\<lparr>styles := (styles s)(el := (styles s el)
            \<lparr>revealOpacity := ''0'',
             revealTransform := ''translateY(20px)'',
             revealTransition := ''opacity 0.5s ease, transform 0.5s ease''\<rparr>),
       observed := insert el (observed s)\<rparr>"

definition setupScrollAnimations :: "page \<Rightarrow> page" where
  "setupScrollAnimations s =
     (if \<not> intersectionObserver s then s
      else (let s1 = fold observeElement (animatedElements s) s
            in s1\<lparr>headStyles := headStyles s1 @ [animateInRule]\<rparr>))"

section \<open>Smooth scroll, keyboard, parallax and banner letters\<close>

definition setupSmoothScroll :: "page \<Rightarrow> page" where
  "setupSmoothScroll s =
     s\<lparr>listeners := listeners s @
          map (\<lambda>i. (Anchor i, ''click'', AnchorClick)) [0..<length (anchors s)]\<rparr>"

text \<open>The click listener of an anchor whose \<open>href\<close> attribute is \<open>targetId\<close>.\<close>

definition anchorClick :: "string \<Rightarrow> page \<Rightarrow> outcome" where
  "anchorClick targetId s =
     (if targetId = ''#'' then Returned s
      else (case querySelector s targetId of
              InvalidSelector \<Rightarrow> Thrown SyntaxError s
            | NoMatch \<Rightarrow> Returned s
            | Match offsetTop \<Rightarrow>
                (let s1 = s\<lparr>defaultPrevented := True\<rparr> in
                 case header (els s1) of
                   None \<Rightarrow> Thrown TypeError s1
                 | Some h \<Rightarrow>
                     Returned (s1\<lparr>scrollRequests :=
                       scrollRequests s1 @ [offsetTop - offsetHeight h]\<rparr>))))"

text \<open>
  \<open>hero\<close> is \<open>document.querySelector('.hero')\<close>: \<open>None\<close> when the page has no hero,
  otherwise its inline \<open>backgroundPositionY\<close> in pixels when set.
\<close>

definition handleParallax :: "page \<Rightarrow> page" where
  "handleParallax s =
     (case hero s of
        None \<Rightarrow> s
      | Some y \<Rightarrow>
          if readScroll s < innerHeight s
          then s\<lparr>hero := Some (Some (readScroll s * (1 / 2)))\<rparr>
          else s)"

definition setupBannerInteraction :: "page \<Rightarrow> page" where
  "setupBannerInteraction s =
     s\<lparr>listeners := listeners s @
          concat (map (\<lambda>i. [(Letter i, ''mouseenter'', LetterEnter),
                             (Letter i, ''mouseleave'', LetterLeave)])
                   [0..<length (bannerLetters (els s))])\<rparr>"

definition letterEnter :: "nat \<Rightarrow> page \<Rightarrow> page" where
  "letterEnter i s =
     s\<lparr>els := (els s)\<lparr>bannerLetters :=
            (bannerLetters (els s))[i := ''scale(1.3) rotate(-10deg)'']\<rparr>\<rparr>"

definition letterLeave :: "nat \<Rightarrow> page \<Rightarrow> page" where
  "letterLeave i s =
     s\<lparr>els := (els s)\<lparr>bannerLetters := (bannerLetters (els s))[i := []]\<rparr>\<rparr>"

section \<open>Event listeners and initialization\<close>

text \<open>The scroll listener and the callback it hands to \<open>requestAnimationFrame\<close>.\<close>

definition onScroll :: "page \<Rightarrow> page" where
  "onScroll s =
     (if \<not> ticking s
      then s\<lparr>frameRequests := Suc (frameRequests s), ticking := True\<rparr>
      else s)"

definition animationFrame :: "page \<Rightarrow> outcome" where
  "animationFrame s =
     (if frameRequests s = 0 then Returned s
      else andThen
             (andThen (handleHeaderScroll (s\<lparr>frameRequests := frameRequests s - 1\<rparr>))
                handleBackToTopVisibility)
             (\<lambda>s2. Returned ((handleParallax s2)\<lparr>ticking := False\<rparr>)))"

definition initEventListeners :: "page \<Rightarrow> page" where
  "initEventListeners s =
     s\<lparr>ticking := False,
       listeners := listeners s
         @ [(Window, ''scroll'', OnScroll)]
         @ (if backToTop (els s) \<noteq> None then [(BackToTopButton, ''click'', ScrollToTop)] else [])
         @ map (\<lambda>i. (Trigger i, ''click'', OpenModal)) [0..<modalTriggers (els s)]
         @ (if modalClose (els s) then [(ModalCloseButton, ''click'', CloseModalHandler)] else [])
         @ (if modalOverlay (els s) then [(ModalOverlay, ''click'', CloseModalHandler)] else [])
         @ (if waitlistForm (els s) \<noteq> None then [(WaitlistForm, ''submit'', HandleFormSubmit)] else [])
         @ [(Document, ''keydown'', HandleKeyboard)]\<rparr>"

definition init :: "page \<Rightarrow> outcome" where
  "init s =
     andThen
       (andThen
          (handleHeaderScroll
             (setupBannerInteraction (setupSmoothScroll (setupScrollAnimations
                (initEventListeners s)))))
          handleBackToTopVisibility)
       (\<lambda>s2. Returned (s2\<lparr>console := console s2 @ [Initialized]\<rparr>))"

text \<open>
  What can happen to the page once \<open>init\<close> has wired it: the browser events the
  script listens to, a timer firing, an animation frame, a batch of intersection
  entries, and a call of \<open>showNotification\<close>. A listener that \<open>initEventListeners\<close>
  attaches only to an element that is present runs only for such an element. Every
  event starts with a fresh \<open>defaultPrevented\<close> flag.
\<close>

datatype event =
    ScrollEvent
  | AnimationFrame
  | BackToTopClick
  | TriggerClick
  | ModalCloseClick
  | OverlayClick
  | SubmitEvent
  | KeyDown string
  | AnchorClicked nat
  | MouseEnter nat
  | MouseLeave nat
  | Timeout nat
  | Intersection "entry list"
  | Show jsstring "string option"

fun handle :: "event \<Rightarrow> page \<Rightarrow> outcome" where
  "handle ScrollEvent s = Returned (onScroll s)"
| "handle AnimationFrame s = animationFrame s"
| "handle BackToTopClick s = (if backToTop (els s) \<noteq> None then scrollToTop s else Returned s)"
| "handle TriggerClick s = (if 0 < modalTriggers (els s) then openModal s else Returned s)"
| "handle ModalCloseClick s = (if modalClose (els s) then closeModal s else Returned s)"
| "handle OverlayClick s = (if modalOverlay (els s) then closeModal s else Returned s)"
| "handle SubmitEvent s =
     (case waitlistForm (els s) of None \<Rightarrow> Returned s | Some f \<Rightarrow> handleFormSubmit f s)"
| "handle (KeyDown key) s = handleKeyboard key s"
| "handle (AnchorClicked i) s =
     (if i < length (anchors s) then anchorClick (anchors s ! i) s else Returned s)"
| "handle (MouseEnter i) s = Returned (letterEnter i s)"
| "handle (MouseLeave i) s = Returned (letterLeave i s)"
| "handle (Timeout i) s = timeout i s"
| "handle (Intersection entries) s = Returned (observerCallback entries s)"
| "handle (Show msg typeArg) s = Returned (showNotification msg typeArg s)"

definition dispatch :: "event \<Rightarrow> page \<Rightarrow> outcome" where
  "dispatch e s = handle e (s\<lparr>defaultPrevented := False\<rparr>)"

text \<open>A sequence of events; an exception ends its handler, not the page.\<close>

fun run :: "event list \<Rightarrow> page \<Rightarrow> page" where
  "run [] s = s"
| "run (e # es) s = run es (after (dispatch e s))"

section \<open>Vocabulary of the properties\<close>

text \<open>
  Kinds of events: a direct call of \<open>showNotification\<close>, a timer firing, and the
  events that cannot call \<open>showNotification\<close> (all but a direct call and a form
  submission).
\<close>

fun isShow :: "event \<Rightarrow> bool" where
  "isShow (Show msg typeArg) = True"
| "isShow e = False"

fun isTimeout :: "event \<Rightarrow> bool" where
  "isTimeout (Timeout i) = True"
| "isTimeout e = False"

fun showsNothing :: "event \<Rightarrow> bool" where
  "showsNothing (Show msg typeArg) = False"
| "showsNothing SubmitEvent = False"
| "showsNothing e = True"

text \<open>
  The index the specification speaks of for the entry at position \<open>i\<close> of a batch:
  the number of intersecting entries in front of it.
\<close>

definition intersectingIndex :: "entry list \<Rightarrow> nat \<Rightarrow> nat" where
  "intersectingIndex entries i = length (filter isIntersecting (take i entries))"

text \<open>
  The browser reports intersection entries only for elements that are under
  observation when the batch is delivered; other events are not constrained.
\<close>

fun deliverable :: "event list \<Rightarrow> page \<Rightarrow> bool" where
  "deliverable [] s = True"
| "deliverable (Intersection entries # es) s =
     (list_all (\<lambda>e. target e \<in> observed s) entries
      \<and> deliverable es (after (dispatch (Intersection entries) s)))"
| "deliverable (e # es) s = deliverable es (after (dispatch e s))"

text \<open>
  Two pages agree on the part of the document the script creates or restyles: the
  revealed elements, the observation set, the style elements and the notifications.
\<close>

definition sameDocument :: "page \<Rightarrow> page \<Rightarrow> bool" where
  "sameDocument s s' =
     (styles s' = styles s \<and> observed s' = observed s \<and> headStyles s' = headStyles s
      \<and> notifications s' = notifications s \<and> nextNode s' = nextNode s)"

text \<open>
  The notifications in \<open>new\<close> are notifications of \<open>old\<close>, possibly restyled, with
  their message and class name: nothing was added.
\<close>

definition onlyFades :: "notification list \<Rightarrow> notification list \<Rightarrow> bool" where
  "onlyFades old new =
     (length new \<le> length old \<and>
      (\<forall>x\<in>set new. \<exists>y\<in>set old. message x = message y \<and> className x = className y))"

text \<open>
  A page with every element the script looks for, before \<open>init\<close>: three anchors
  (one bare, one with a target, one without), three elements to reveal, no
  notification yet.
\<close>

definition noStyle :: revealed where
  "noStyle = \<lparr>revealClassList = [], revealOpacity = [], revealTransform = [],
              revealTransition = [], animationDelayMs = None\<rparr>"

definition exampleForm :: form where
  "exampleForm = \<lparr>textInput = Some \<lparr>fieldValue = [], defaultValue = []\<rparr>,
                   emailInput = Some \<lparr>fieldValue = [], defaultValue = []\<rparr>\<rparr>"

definition exampleElements :: elements where
  "exampleElements =
     \<lparr>header = Some \<lparr>classList = [''header''], offsetHeight = 80\<rparr>,
      backToTop = Some [''footer__back-to-top''],
      modal = Some \<lparr>modalClassList = [''modal''], modalInput = Some False\<rparr>,
      modalOverlay = True,
      modalClose = True,
      waitlistForm = Some exampleForm,
      modalTriggers = 2,
      bannerLetters = [Nil, Nil]\<rparr>"

definition examplePage :: page where
  "examplePage =
     \<lparr>els = exampleElements,
      scrollY = Some 0,
      pageYOffset = 0,
      innerHeight = 800,
      hero = Some None,
      bodyOverflow = [],
      notifications = [],
      headStyles = [],
      timers = [],
      nextNode = 0,
      defaultPrevented = False,
      scrollRequests = [],
      querySelector = (\<lambda>sel. if sel = ''#features'' then Match 1200
                              else if sel = ''#1'' then InvalidSelector else NoMatch),
      anchors = [''#'', ''#features'', ''#missing''],
      intersectionObserver = True,
      animatedElements = [0, 1, 2],
      styles = (\<lambda>el. noStyle),
      observed = {},
      listeners = [],
      ticking = False,
      frameRequests = 0,
      console = []\<rparr>"

section \<open>Scroll thresholds\<close>

lemma readScroll_els [simp]: "readScroll (s\<lparr>els := x\<rparr>) = readScroll s"
  by (simp add: readScroll_def split: option.splits)

lemma readScroll_frameRequests [simp]: "readScroll (s\<lparr>frameRequests := k\<rparr>) = readScroll s"
  by (simp add: readScroll_def split: option.splits)

lemma handleHeaderScroll_Some:
  "header (els s) = Some h \<Longrightarrow>
   handleHeaderScroll s = Returned (s\<lparr>els := (els s)\<lparr>header := Some (h\<lparr>classList :=
     (if readScroll s > 100 then classList_add ''header--scrolled'' (classList h)
      else classList_remove ''header--scrolled'' (classList h))\<rparr>)\<rparr>\<rparr>)"
  by (simp add: handleHeaderScroll_def config_def)

lemma handleBackToTopVisibility_Some:
  "backToTop (els s) = Some b \<Longrightarrow>
   handleBackToTopVisibility s = Returned (s\<lparr>els := (els s)\<lparr>backToTop := Some
     (if readScroll s > 300 then classList_add ''footer__back-to-top--visible'' b
      else classList_remove ''footer__back-to-top--visible'' b)\<rparr>\<rparr>)"
  by (simp add: handleBackToTopVisibility_def config_def)

lemma contains_add_remove [simp]:
  "classList_contains c (classList_add c cs)"
  "\<not> classList_contains c (classList_remove c cs)"
  by (simp_all add: classList_contains_def classList_add_def classList_remove_def)

lemma els_handleParallax [simp]: "els (handleParallax s) = els s"
  by (simp add: handleParallax_def split: option.splits)

text \<open>
  Claim C2. On a page that has the header and the back-to-top button, for every scroll
  offset the handlers read: after \<open>handleHeaderScroll\<close> the header carries
  \<open>header--scrolled\<close> exactly when the offset is greater than 100, and after
  \<open>handleBackToTopVisibility\<close> the button carries \<open>footer__back-to-top--visible\<close>
  exactly when the offset is greater than 300; the same holds after the animation
  frame callback that runs both.
\<close>

theorem scroll_classes_follow_threshold:
  assumes "header (els s) = Some h" and "backToTop (els s) = Some b"
  shows "(\<exists>s1 h1. handleHeaderScroll s = Returned s1 \<and> header (els s1) = Some h1 \<and>
            (classList_contains ''header--scrolled'' (classList h1) \<longleftrightarrow> readScroll s > 100))
       \<and> (\<exists>s2 b2. handleBackToTopVisibility s = Returned s2 \<and> backToTop (els s2) = Some b2 \<and>
            (classList_contains ''footer__back-to-top--visible'' b2 \<longleftrightarrow> readScroll s > 300))
       \<and> (\<exists>s3 h3 b3. animationFrame (s\<lparr>frameRequests := Suc k\<rparr>) = Returned s3 \<and>
            header (els s3) = Some h3 \<and> backToTop (els s3) = Some b3 \<and>
            (classList_contains ''header--scrolled'' (classList h3) \<longleftrightarrow> readScroll s > 100) \<and>
            (classList_contains ''footer__back-to-top--visible'' b3 \<longleftrightarrow> readScroll s > 300))"
proof (intro conjI)
  show "\<exists>s1 h1. handleHeaderScroll s = Returned s1 \<and> header (els s1) = Some h1 \<and>
            (classList_contains ''header--scrolled'' (classList h1) \<longleftrightarrow> readScroll s > 100)"
    using assms by (simp add: handleHeaderScroll_Some)
  show "\<exists>s2 b2. handleBackToTopVisibility s = Returned s2 \<and> backToTop (els s2) = Some b2 \<and>
            (classList_contains ''footer__back-to-top--visible'' b2 \<longleftrightarrow> readScroll s > 300)"
    using assms by (simp add: handleBackToTopVisibility_Some)
  show "\<exists>s3 h3 b3. animationFrame (s\<lparr>frameRequests := Suc k\<rparr>) = Returned s3 \<and>
            header (els s3) = Some h3 \<and> backToTop (els s3) = Some b3 \<and>
            (classList_contains ''header--scrolled'' (classList h3) \<longleftrightarrow> readScroll s > 100) \<and>
            (classList_contains ''footer__back-to-top--visible'' b3 \<longleftrightarrow> readScroll s > 300)"
    using assms
    by (simp add: animationFrame_def handleHeaderScroll_Some handleBackToTopVisibility_Some)
qed

theorem scroll_classes_follow_threshold_witness:
  "(\<exists>s1 h1. handleHeaderScroll (examplePage\<lparr>scrollY := Some 150\<rparr>) = Returned s1 \<and>
       header (els s1) = Some h1 \<and> classList_contains ''header--scrolled'' (classList h1))
   \<and> (\<exists>s2 b2. handleBackToTopVisibility (examplePage\<lparr>scrollY := Some 150\<rparr>) = Returned s2 \<and>
       backToTop (els s2) = Some b2 \<and> \<not> classList_contains ''footer__back-to-top--visible'' b2)"
proof -
  have h: "header (els (examplePage\<lparr>scrollY := Some 150\<rparr>))
             = Some \<lparr>classList = [''header''], offsetHeight = 80\<rparr>"
    by (simp add: examplePage_def exampleElements_def)
  have b: "backToTop (els (examplePage\<lparr>scrollY := Some 150\<rparr>)) = Some [''footer__back-to-top'']"
    by (simp add: examplePage_def exampleElements_def)
  have r: "readScroll (examplePage\<lparr>scrollY := Some 150\<rparr>) = 150"
    by (simp add: readScroll_def)
  from scroll_classes_follow_threshold [OF h b, of 0] show ?thesis
    unfolding r by simp
qed

section \<open>Form submission\<close>

lemma showNotification_fields [simp]:
  "els (showNotification msg ty s) = els s"
  "timers (showNotification msg ty s) = timers s @ [(3000, FadeNotification (nextNode s))]"
  "nextNode (showNotification msg ty s) = Suc (nextNode s)"
  "defaultPrevented (showNotification msg ty s) = defaultPrevented s"
  "headStyles (showNotification msg ty s) = headStyles s @ [slideDownKeyframes]"
  "styles (showNotification msg ty s) = styles s"
  "observed (showNotification msg ty s) = observed s"
  "bodyOverflow (showNotification msg ty s) = bodyOverflow s"
  by (simp_all add: showNotification_def setTimeout_def Let_def)

lemma setTimeout_fields [simp]:
  "els (setTimeout f d s) = els s"
  "timers (setTimeout f d s) = timers s @ [(d, f)]"
  "nextNode (setTimeout f d s) = nextNode s"
  "defaultPrevented (setTimeout f d s) = defaultPrevented s"
  "headStyles (setTimeout f d s) = headStyles s"
  "notifications (setTimeout f d s) = notifications s"
  "styles (setTimeout f d s) = styles s"
  "observed (setTimeout f d s) = observed s"
  "bodyOverflow (setTimeout f d s) = bodyOverflow s"
  by (simp_all add: setTimeout_def)

text \<open>
  Claim C1. For a submit event on a waitlist form that has its text input and its email
  input, \<open>handleFormSubmit\<close> returns with the default submission suppressed and has
  called \<open>showNotification\<close> exactly once (one notification element created): with
  "Please fill in all fields" and kind error when a field is empty, and then nothing
  else (form untouched, only the notification's own timer scheduled); otherwise with
  "Please enter a valid email address" and kind error when the email fails the
  pattern, and then nothing else; otherwise with the success message, after which the
  form is reset - the value of the text input and of the email input is set back to
  the input's default value, and nothing else of the looked-up elements changes - and
  \<open>closeModal\<close> is scheduled after 1500 ms, in that order.
\<close>

theorem handleFormSubmit_validation:
  assumes "textInput f = Some t" and "emailInput f = Some e"
  shows "\<exists>s'. handleFormSubmit f s = Returned s' \<and> defaultPrevented s' \<and>
           nextNode s' = Suc (nextNode s) \<and>
           (if fieldValue t = [] \<or> fieldValue e = []
            then s' = showNotification fillInAllFields (Some ''error'') (s\<lparr>defaultPrevented := True\<rparr>)
               \<and> els s' = els s
               \<and> timers s' = timers s @ [(3000, FadeNotification (nextNode s))]
            else if \<not> regexMatches emailRegex (fieldValue e)
            then s' = showNotification enterValidEmail (Some ''error'') (s\<lparr>defaultPrevented := True\<rparr>)
               \<and> els s' = els s
               \<and> timers s' = timers s @ [(3000, FadeNotification (nextNode s))]
            else s' = setTimeout CloseModal 1500
                   ((showNotification welcomeMessage (Some ''success'')
                       (s\<lparr>defaultPrevented := True,
                          console := console s @ [FormSubmitted (fieldValue t) (fieldValue e)]\<rparr>))
                    \<lparr>els := (els s)\<lparr>waitlistForm := Some (reset f)\<rparr>\<rparr>)
               \<and> waitlistForm (els s') = Some (reset f)
               \<and> waitlistForm (els s')
                   = Some (f\<lparr>textInput := Some (t\<lparr>fieldValue := defaultValue t\<rparr>),
                             emailInput := Some (e\<lparr>fieldValue := defaultValue e\<rparr>)\<rparr>)
               \<and> els s' = (els s)\<lparr>waitlistForm :=
                     Some (f\<lparr>textInput := Some (t\<lparr>fieldValue := defaultValue t\<rparr>),
                             emailInput := Some (e\<lparr>fieldValue := defaultValue e\<rparr>)\<rparr>)\<rparr>
               \<and> timers s' = timers s @ [(3000, FadeNotification (nextNode s)), (1500, CloseModal)])"
  using assms by (simp add: handleFormSubmit_def Let_def reset_def resetField_def)

theorem handleFormSubmit_validation_witness:
  "handleFormSubmit
       \<lparr>textInput = Some \<lparr>fieldValue = js ''A'', defaultValue = []\<rparr>,
        emailInput = Some \<lparr>fieldValue = js ''a@b.com'', defaultValue = []\<rparr>\<rparr> examplePage
     = Returned (setTimeout CloseModal 1500
         ((showNotification welcomeMessage (Some ''success'')
             (examplePage\<lparr>defaultPrevented := True,
                console := [FormSubmitted (js ''A'') (js ''a@b.com'')]\<rparr>))
          \<lparr>els := exampleElements\<lparr>waitlistForm :=
                Some \<lparr>textInput = Some \<lparr>fieldValue = [], defaultValue = []\<rparr>,
                       emailInput = Some \<lparr>fieldValue = [], defaultValue = []\<rparr>\<rparr>\<rparr>\<rparr>))
   \<and> handleFormSubmit
       \<lparr>textInput = Some \<lparr>fieldValue = js ''A'', defaultValue = []\<rparr>,
        emailInput = Some \<lparr>fieldValue = js ''not-an-email'', defaultValue = []\<rparr>\<rparr> examplePage
     = Returned (showNotification enterValidEmail (Some ''error'')
         (examplePage\<lparr>defaultPrevented := True\<rparr>))
   \<and> handleFormSubmit
       \<lparr>textInput = Some \<lparr>fieldValue = [], defaultValue = []\<rparr>,
        emailInput = Some \<lparr>fieldValue = js ''a@b.com'', defaultValue = []\<rparr>\<rparr> examplePage
     = Returned (showNotification fillInAllFields (Some ''error'')
         (examplePage\<lparr>defaultPrevented := True\<rparr>))"
proof -
  have success: "handleFormSubmit
       \<lparr>textInput = Some \<lparr>fieldValue = js ''A'', defaultValue = []\<rparr>,
        emailInput = Some \<lparr>fieldValue = js ''a@b.com'', defaultValue = []\<rparr>\<rparr> examplePage
     = Returned (setTimeout CloseModal 1500
         ((showNotification welcomeMessage (Some ''success'')
             (examplePage\<lparr>defaultPrevented := True,
                console := [FormSubmitted (js ''A'') (js ''a@b.com'')]\<rparr>))
          \<lparr>els := exampleElements\<lparr>waitlistForm :=
                Some \<lparr>textInput = Some \<lparr>fieldValue = [], defaultValue = []\<rparr>,
                       emailInput = Some \<lparr>fieldValue = [], defaultValue = []\<rparr>\<rparr>\<rparr>\<rparr>))"
    using handleFormSubmit_validation
      [of "\<lparr>textInput = Some \<lparr>fieldValue = js ''A'', defaultValue = []\<rparr>,
            emailInput = Some \<lparr>fieldValue = js ''a@b.com'', defaultValue = []\<rparr>\<rparr>"
        "\<lparr>fieldValue = js ''A'', defaultValue = []\<rparr>"
        "\<lparr>fieldValue = js ''a@b.com'', defaultValue = []\<rparr>" examplePage]
    by (simp add: js_def emailRegex_def whiteSpace_def reset_def resetField_def examplePage_def)
  have invalid: "handleFormSubmit
       \<lparr>textInput = Some \<lparr>fieldValue = js ''A'', defaultValue = []\<rparr>,
        emailInput = Some \<lparr>fieldValue = js ''not-an-email'', defaultValue = []\<rparr>\<rparr> examplePage
     = Returned (showNotification enterValidEmail (Some ''error'')
         (examplePage\<lparr>defaultPrevented := True\<rparr>))"
    using handleFormSubmit_validation
      [of "\<lparr>textInput = Some \<lparr>fieldValue = js ''A'', defaultValue = []\<rparr>,
            emailInput = Some \<lparr>fieldValue = js ''not-an-email'', defaultValue = []\<rparr>\<rparr>"
        "\<lparr>fieldValue = js ''A'', defaultValue = []\<rparr>"
        "\<lparr>fieldValue = js ''not-an-email'', defaultValue = []\<rparr>" examplePage]
    by (simp add: js_def emailRegex_def whiteSpace_def)
  have empty: "handleFormSubmit
       \<lparr>textInput = Some \<lparr>fieldValue = [], defaultValue = []\<rparr>,
        emailInput = Some \<lparr>fieldValue = js ''a@b.com'', defaultValue = []\<rparr>\<rparr> examplePage
     = Returned (showNotification fillInAllFields (Some ''error'')
         (examplePage\<lparr>defaultPrevented := True\<rparr>))"
    using handleFormSubmit_validation
      [of "\<lparr>textInput = Some \<lparr>fieldValue = [], defaultValue = []\<rparr>,
            emailInput = Some \<lparr>fieldValue = js ''a@b.com'', defaultValue = []\<rparr>\<rparr>"
        "\<lparr>fieldValue = [], defaultValue = []\<rparr>"
        "\<lparr>fieldValue = js ''a@b.com'', defaultValue = []\<rparr>" examplePage]
    by simp
  show ?thesis
    by (rule conjI [OF success conjI [OF invalid empty]])
qed

text \<open>The three submissions of the specification's examples.\<close>

lemma handleFormSubmit_examples:
  "handleFormSubmit
     \<lparr>textInput = Some \<lparr>fieldValue = [], defaultValue = []\<rparr>,
      emailInput = Some \<lparr>fieldValue = js ''a@b.com'', defaultValue = []\<rparr>\<rparr> examplePage
   = Returned (showNotification fillInAllFields (Some ''error'')
       (examplePage\<lparr>defaultPrevented := True\<rparr>))"
  "regexMatches emailRegex (js ''a@b.com'')"
  "\<not> regexMatches emailRegex (js ''not-an-email'')"
  by (simp_all add: handleFormSubmit_def js_def emailRegex_def whiteSpace_def)

lemma regexMatches_Once:
  "regexMatches (Once a # ps) cs \<longleftrightarrow> (\<exists>c v. cs = c # v \<and> atomMatches a c \<and> regexMatches ps v)"
  by (cases cs) simp_all

lemma regexMatches_OneOrMore:
  "regexMatches (OneOrMore a # ps) cs \<longleftrightarrow>
     (\<exists>u v. cs = u @ v \<and> u \<noteq> [] \<and> list_all (atomMatches a) u \<and> regexMatches ps v)"
proof (induction cs)
  case Nil
  then show ?case by simp
next
  case (Cons c cs)
  show ?case
  proof
    assume "regexMatches (OneOrMore a # ps) (c # cs)"
    then have c: "atomMatches a c"
      and rest: "regexMatches (OneOrMore a # ps) cs \<or> regexMatches ps cs" by simp_all
    from rest show "\<exists>u v. c # cs = u @ v \<and> u \<noteq> [] \<and> list_all (atomMatches a) u \<and> regexMatches ps v"
    proof
      assume "regexMatches (OneOrMore a # ps) cs"
      with Cons.IH obtain u v where "cs = u @ v" "list_all (atomMatches a) u" "regexMatches ps v"
        by blast
      with c have "c # cs = (c # u) @ v \<and> c # u \<noteq> [] \<and> list_all (atomMatches a) (c # u) \<and> regexMatches ps v"
        by simp
      then show ?thesis by blast
    next
      assume "regexMatches ps cs"
      with c have "c # cs = [c] @ cs \<and> [c] \<noteq> [] \<and> list_all (atomMatches a) [c] \<and> regexMatches ps cs"
        by simp
      then show ?thesis by blast
    qed
  next
    assume "\<exists>u v. c # cs = u @ v \<and> u \<noteq> [] \<and> list_all (atomMatches a) u \<and> regexMatches ps v"
    then obtain u v where uv: "c # cs = u @ v" "u \<noteq> []" "list_all (atomMatches a) u" "regexMatches ps v"
      by blast
    then obtain u' where u: "u = c # u'" by (cases u) simp_all
    with uv have c: "atomMatches a c" and cs: "cs = u' @ v" and all: "list_all (atomMatches a) u'"
      by simp_all
    show "regexMatches (OneOrMore a # ps) (c # cs)"
    proof (cases "u' = []")
      case True
      with cs uv(4) c show ?thesis by simp
    next
      case False
      with cs all uv(4) Cons.IH have "regexMatches (OneOrMore a # ps) cs" by blast
      with c show ?thesis by simp
    qed
  qed
qed

text \<open>
  What the pattern accepts: a non-empty part, the only \<open>@\<close> of the string, a
  non-empty part, a dot, a non-empty part, with no white space anywhere.
\<close>

lemma emailRegex_shape:
  "regexMatches emailRegex email \<longleftrightarrow>
     (\<exists>user host tld. email = user @ [0x40] @ host @ [0x2E] @ tld
        \<and> user \<noteq> [] \<and> host \<noteq> [] \<and> tld \<noteq> []
        \<and> list_all (\<lambda>c. \<not> whiteSpace c \<and> c \<noteq> 0x40) (user @ host @ tld))"
proof -
  have atom: "atomMatches NotSpaceNorAt = (\<lambda>c. \<not> whiteSpace c \<and> c \<noteq> 0x40)"
    by (rule ext) simp
  have last: "regexMatches [OneOrMore NotSpaceNorAt] v \<longleftrightarrow> v \<noteq> [] \<and> list_all (atomMatches NotSpaceNorAt) v" for v
    by (auto simp add: regexMatches_OneOrMore)
  show ?thesis
    unfolding emailRegex_def regexMatches_OneOrMore regexMatches_Once last atom [symmetric]
    by (auto; blast?)
qed

section \<open>Modal\<close>

lemma openModal_Some:
  "modal (els s) = Some m \<Longrightarrow>
   openModal s = Returned (s\<lparr>els := (els s)\<lparr>modal :=
       Some (m\<lparr>modalClassList := classList_add ''modal--active'' (modalClassList m)\<rparr>)\<rparr>,
     bodyOverflow := ''hidden'',
     timers := timers s @ (case modalInput m of None \<Rightarrow> []
                           | Some focused \<Rightarrow> [(300, FocusFirstInput)])\<rparr>)"
  by (simp add: openModal_def setTimeout_def Let_def split: option.splits)

lemma closeModal_Some:
  "modal (els s) = Some m \<Longrightarrow>
   closeModal s = Returned (s\<lparr>els := (els s)\<lparr>modal :=
       Some (m\<lparr>modalClassList := classList_remove ''modal--active'' (modalClassList m)\<rparr>)\<rparr>,
     bodyOverflow := []\<rparr>)"
  by (simp add: closeModal_def)

lemma classList_add_idem [simp]: "classList_add c (classList_add c cs) = classList_add c cs"
  by (simp add: classList_add_def)

lemma classList_remove_idem [simp]:
  "classList_remove c (classList_remove c cs) = classList_remove c cs"
  by (simp add: classList_remove_def)

text \<open>
  Claim C5, as stated, fails: \<open>closeModal\<close> does not restore the value the body's
  overflow style had before \<open>openModal\<close>. On a page whose body has the inline style
  \<open>overflow: scroll\<close>, opening and closing the modal leaves it empty.
\<close>

theorem open_close_loses_overflow:
  "bodyOverflow (after (andThen (openModal (examplePage\<lparr>bodyOverflow := ''scroll''\<rparr>)) closeModal))
     \<noteq> bodyOverflow (examplePage\<lparr>bodyOverflow := ''scroll''\<rparr>)"
  by (simp add: openModal_def closeModal_def examplePage_def exampleElements_def setTimeout_def)

text \<open>
  Claim C5, amended. On a page with the modal, \<open>openModal\<close> followed by \<open>closeModal\<close>
  returns and leaves the body's overflow style empty, whatever it was before; so the
  value before the open is restored exactly when it was the empty string.
\<close>

theorem open_close_clears_overflow:
  assumes "modal (els s) = Some m"
  shows "\<exists>s'. andThen (openModal s) closeModal = Returned s' \<and> bodyOverflow s' = [] \<and>
           (bodyOverflow s' = bodyOverflow s \<longleftrightarrow> bodyOverflow s = [])"
  using assms by (auto simp add: openModal_Some closeModal_Some)

theorem open_close_clears_overflow_witness:
  "\<exists>s'. andThen (openModal examplePage) closeModal = Returned s' \<and> bodyOverflow s' = [] \<and>
         bodyOverflow s' = bodyOverflow examplePage"
  using open_close_clears_overflow
    [of examplePage "\<lparr>modalClassList = [''modal''], modalInput = Some False\<rparr>"]
  by (simp add: examplePage_def exampleElements_def)

text \<open>
  Claim C8, as stated, fails: a second \<open>openModal\<close> is not free of stacking side
  effects. On the example page, whose modal has an input, two calls leave two focus
  timers pending where one call leaves one.
\<close>

theorem openModal_twice_stacks_timers:
  "timers (after (openModal (after (openModal examplePage))))
     \<noteq> timers (after (openModal examplePage))"
  by (simp add: openModal_def examplePage_def exampleElements_def setTimeout_def)

text \<open>
  Claim C8, amended. On a page with the modal, a second \<open>openModal\<close> leaves the modal's
  classes (all looked-up elements) and the body's overflow style as the first call
  left them, and changes nothing but the pending timers: when the modal has an input
  it schedules one more 300 ms focus timer. A second \<open>closeModal\<close> gives exactly the
  result of the first.
\<close>

theorem modal_calls_repeat:
  assumes "modal (els s) = Some m"
  shows "(\<exists>s1 s2. openModal s = Returned s1 \<and> openModal s1 = Returned s2 \<and>
           els s2 = els s1 \<and> bodyOverflow s2 = bodyOverflow s1 \<and>
           s2 = s1\<lparr>timers := timers s1 @ (case modalInput m of None \<Rightarrow> []
                                            | Some focused \<Rightarrow> [(300, FocusFirstInput)])\<rparr>)
    \<and> closeModal (after (closeModal s)) = closeModal s"
  using assms by (simp add: openModal_Some closeModal_Some)

theorem modal_calls_repeat_witness:
  "(\<exists>s1 s2. openModal examplePage = Returned s1 \<and> openModal s1 = Returned s2 \<and>
       els s2 = els s1 \<and> bodyOverflow s2 = bodyOverflow s1 \<and>
       s2 = s1\<lparr>timers := timers s1 @ [(300, FocusFirstInput)]\<rparr>)
    \<and> closeModal (after (closeModal examplePage)) = closeModal examplePage"
  using modal_calls_repeat
    [of examplePage "\<lparr>modalClassList = [''modal''], modalInput = Some False\<rparr>"]
  by (simp add: examplePage_def exampleElements_def)

section \<open>Anchor links\<close>

text \<open>
  Claim C9. A click on an anchor whose href is exactly \<open>#\<close> returns without effect.
  Otherwise, when \<open>document.querySelector(href)\<close> finds an element (and the page has
  its header), default navigation is suppressed and one scroll is requested, to the
  element's \<open>offsetTop\<close> minus the header's \<open>offsetHeight\<close>. When nothing matches, the
  handler returns with the page as it was: no scroll, default not suppressed; the
  same is left behind when the href is no valid selector.
\<close>

theorem anchorClick_destination:
  "(targetId = ''#'' \<longrightarrow> anchorClick targetId s = Returned s) \<and>
   (targetId \<noteq> ''#'' \<and> querySelector s targetId = Match y \<and> header (els s) = Some h \<longrightarrow>
      anchorClick targetId s = Returned (s\<lparr>defaultPrevented := True,
         scrollRequests := scrollRequests s @ [y - offsetHeight h]\<rparr>)) \<and>
   (targetId \<noteq> ''#'' \<and> querySelector s targetId = NoMatch \<longrightarrow>
      anchorClick targetId s = Returned s) \<and>
   (targetId \<noteq> ''#'' \<and> querySelector s targetId = InvalidSelector \<longrightarrow>
      after (anchorClick targetId s) = s)"
  by (simp add: anchorClick_def)

theorem anchorClick_destination_witness:
  "anchorClick ''#'' examplePage = Returned examplePage \<and>
   anchorClick ''#features'' examplePage
     = Returned (examplePage\<lparr>defaultPrevented := True, scrollRequests := [1120]\<rparr>) \<and>
   anchorClick ''#missing'' examplePage = Returned examplePage"
  using anchorClick_destination [of "''#''" examplePage 0 undefined]
    anchorClick_destination [of "''#features''" examplePage 1200
      "\<lparr>classList = [''header''], offsetHeight = 80\<rparr>"]
    anchorClick_destination [of "''#missing''" examplePage 0 undefined]
  by (simp add: examplePage_def exampleElements_def)

section \<open>Missing elements\<close>

lemma els_fold_observeElement [simp]: "els (fold observeElement xs s) = els s"
  by (induction xs arbitrary: s) (simp_all add: observeElement_def)

lemma els_setup [simp]:
  "els (initEventListeners s) = els s"
  "els (setupScrollAnimations s) = els s"
  "els (setupSmoothScroll s) = els s"
  "els (setupBannerInteraction s) = els s"
  by (simp_all add: initEventListeners_def setupScrollAnimations_def setupSmoothScroll_def
      setupBannerInteraction_def Let_def)

lemma init_throws_iff:
  "throws (init s) \<longleftrightarrow> header (els s) = None \<or> backToTop (els s) = None"
  by (auto simp add: init_def handleHeaderScroll_def handleBackToTopVisibility_def
      split: option.splits)

text \<open>
  Claim C4 fails on the code. The references to the header, the back-to-top button
  and the modal inside the handlers are not guarded. On the example page without the
  back-to-top button, \<open>initEventListeners\<close> skips the button's click listener, as its
  guard says, yet \<open>init\<close> throws a \<open>TypeError\<close> out of \<open>handleBackToTopVisibility\<close>
  and never logs that it finished; so do the animation frame callback, and the
  keyboard handler on a page without the modal.
\<close>

theorem init_throws_without_backToTop:
  "init (examplePage\<lparr>els := exampleElements\<lparr>backToTop := None\<rparr>\<rparr>)
     = Thrown TypeError (after (init (examplePage\<lparr>els := exampleElements\<lparr>backToTop := None\<rparr>\<rparr>)))
   \<and> (BackToTopButton, ''click'', ScrollToTop)
       \<notin> set (listeners (after (init (examplePage\<lparr>els := exampleElements\<lparr>backToTop := None\<rparr>\<rparr>))))
   \<and> Initialized \<notin> set (console (after (init (examplePage\<lparr>els := exampleElements\<lparr>backToTop := None\<rparr>\<rparr>))))
   \<and> throws (animationFrame (examplePage\<lparr>els := exampleElements\<lparr>backToTop := None\<rparr>,
                                          frameRequests := 1\<rparr>))
   \<and> throws (handleKeyboard ''Escape'' (examplePage\<lparr>els := exampleElements\<lparr>modal := None\<rparr>\<rparr>))"
  by (auto simp add: init_def examplePage_def exampleElements_def handleHeaderScroll_def
      handleBackToTopVisibility_def setupBannerInteraction_def setupSmoothScroll_def
      setupScrollAnimations_def initEventListeners_def readScroll_def config_def
      observeElement_def animationFrame_def handleKeyboard_def)

section \<open>Notifications and style elements\<close>

lemma sameDocument_refl [simp]: "sameDocument s s"
  by (simp add: sameDocument_def)

lemma onlyFades_refl [simp]: "onlyFades xs xs"
  by (auto simp add: onlyFades_def)

lemma sameDocument_handleHeaderScroll: "sameDocument s (after (handleHeaderScroll s))"
  by (simp add: sameDocument_def handleHeaderScroll_def split: option.splits)

lemma sameDocument_handleBackToTopVisibility:
  "sameDocument s (after (handleBackToTopVisibility s))"
  by (simp add: sameDocument_def handleBackToTopVisibility_def split: option.splits)

lemma sameDocument_handleParallax: "sameDocument s (handleParallax s)"
  by (simp add: sameDocument_def handleParallax_def split: option.splits)

lemma sameDocument_openModal: "sameDocument s (after (openModal s))"
  by (simp add: sameDocument_def openModal_def Let_def split: option.splits)

lemma sameDocument_closeModal: "sameDocument s (after (closeModal s))"
  by (simp add: sameDocument_def closeModal_def split: option.splits)

lemma sameDocument_handleKeyboard: "sameDocument s (after (handleKeyboard key s))"
  using sameDocument_closeModal [of s]
  by (simp add: handleKeyboard_def split: option.splits)

lemma sameDocument_anchorClick: "sameDocument s (after (anchorClick targetId s))"
  by (simp add: sameDocument_def anchorClick_def Let_def split: option.splits query.splits)

lemma sameDocument_animationFrame: "sameDocument s (after (animationFrame s))"
proof (cases "frameRequests s = 0")
  case True
  then show ?thesis by (simp add: animationFrame_def)
next
  case False
  let ?s0 = "s\<lparr>frameRequests := frameRequests s - 1\<rparr>"
  have a: "sameDocument s ?s0" by (simp add: sameDocument_def)
  show ?thesis
  proof (cases "handleHeaderScroll ?s0")
    case (Thrown e s1)
    with sameDocument_handleHeaderScroll [of ?s0] a False show ?thesis
      by (simp add: animationFrame_def sameDocument_def)
  next
    case (Returned s1)
    note r1 = this
    with sameDocument_handleHeaderScroll [of ?s0] a have b: "sameDocument s s1"
      by (simp add: sameDocument_def)
    show ?thesis
    proof (cases "handleBackToTopVisibility s1")
      case (Thrown e s2)
      with sameDocument_handleBackToTopVisibility [of s1] b r1 False show ?thesis
        by (simp add: animationFrame_def sameDocument_def)
    next
      case (Returned s2)
      with sameDocument_handleBackToTopVisibility [of s1] sameDocument_handleParallax [of s2]
        b r1 False
      show ?thesis
        by (simp add: animationFrame_def sameDocument_def)
    qed
  qed
qed

lemma sameDocument_routine:
  assumes "showsNothing e" and "\<not> isTimeout e" and "\<forall>entries. e \<noteq> Intersection entries"
  shows "sameDocument s (after (handle e s))"
  using assms sameDocument_animationFrame [of s] sameDocument_openModal [of s]
    sameDocument_closeModal [of s] sameDocument_handleKeyboard [of s]
    sameDocument_anchorClick [of s]
  by (cases e) (simp_all add: onScroll_def scrollToTop_def letterEnter_def letterLeave_def,
      simp_all add: sameDocument_def)

lemma forEachEntry_document:
  "headStyles (forEachEntry k es s) = headStyles s \<and>
   notifications (forEachEntry k es s) = notifications s \<and>
   nextNode (forEachEntry k es s) = nextNode s"
  by (induction es arbitrary: k s) (simp_all add: revealEntry_def)

lemma runTask_document:
  "styles (after (runTask t s)) = styles s \<and> observed (after (runTask t s)) = observed s \<and>
   headStyles (after (runTask t s)) = headStyles s \<and> nextNode (after (runTask t s)) = nextNode s \<and>
   onlyFades (notifications s) (notifications (after (runTask t s)))"
proof (cases t)
  case CloseModal
  with sameDocument_closeModal [of s] show ?thesis by (simp add: sameDocument_def)
next
  case FocusFirstInput
  then show ?thesis by simp
next
  case (FadeNotification n)
  then show ?thesis by (auto simp add: onlyFades_def)
next
  case (RemoveNotification n)
  then show ?thesis by (auto simp add: onlyFades_def)
qed

lemma timeout_document:
  "styles (after (timeout i s)) = styles s \<and> observed (after (timeout i s)) = observed s \<and>
   headStyles (after (timeout i s)) = headStyles s \<and> nextNode (after (timeout i s)) = nextNode s \<and>
   onlyFades (notifications s) (notifications (after (timeout i s)))"
proof (cases "i < length (timers s)")
  case True
  with runTask_document [of "snd (timers s ! i)"
      "s\<lparr>timers := take i (timers s) @ drop (Suc i) (timers s)\<rparr>"]
  show ?thesis by (simp add: timeout_def)
next
  case False
  then show ?thesis by (simp add: timeout_def)
qed

lemma showNotification_notifications:
  "notifications (showNotification msg ty s) =
     (case notifications s of [] \<Rightarrow> [] | x # xs \<Rightarrow> xs)
     @ [\<lparr>node = nextNode s,
         className = ''notification notification--'' @ (case ty of None \<Rightarrow> ''success'' | Some t \<Rightarrow> t),
         message = msg,
         background = (if (case ty of None \<Rightarrow> ''success'' | Some t \<Rightarrow> t) = ''success''
                       then ''#4cd137'' else ''#ff6b6b''),
         opacity = [], transform = ''translateX(-50%)'', transition = []\<rparr>]"
  by (simp add: showNotification_def Let_def)

lemma handleFormSubmit_document:
  "sameDocument s (after (handleFormSubmit f s)) \<or>
   (\<exists>msg ty. sameDocument (showNotification msg ty s) (after (handleFormSubmit f s)))"
proof (cases "textInput f")
  case None
  then show ?thesis by (simp add: handleFormSubmit_def sameDocument_def)
next
  case (Some t)
  note t = this
  show ?thesis
  proof (cases "emailInput f")
    case None
    with t show ?thesis by (simp add: handleFormSubmit_def sameDocument_def)
  next
    case (Some e)
    have "\<exists>msg ty. sameDocument (showNotification msg ty s) (after (handleFormSubmit f s))"
    proof -
      consider (empty) "fieldValue t = [] \<or> fieldValue e = []"
        | (invalid) "\<not> (fieldValue t = [] \<or> fieldValue e = [])" "\<not> regexMatches emailRegex (fieldValue e)"
        | (ok) "\<not> (fieldValue t = [] \<or> fieldValue e = [])" "regexMatches emailRegex (fieldValue e)"
        by blast
      then show ?thesis
      proof cases
        case empty
        with t Some have "sameDocument (showNotification fillInAllFields (Some ''error'') s) (after (handleFormSubmit f s))"
          by (simp add: handleFormSubmit_def sameDocument_def showNotification_notifications)
        then show ?thesis by blast
      next
        case invalid
        with t Some have "sameDocument (showNotification enterValidEmail (Some ''error'') s) (after (handleFormSubmit f s))"
          by (simp add: handleFormSubmit_def sameDocument_def showNotification_notifications)
        then show ?thesis by blast
      next
        case ok
        with t Some have "sameDocument (showNotification welcomeMessage (Some ''success'') s) (after (handleFormSubmit f s))"
          by (simp add: handleFormSubmit_def sameDocument_def showNotification_notifications Let_def)
        then show ?thesis by blast
      qed
    qed
    then show ?thesis ..
  qed
qed

lemma event_kinds:
  obtains (routine) "showsNothing e" "\<not> isTimeout e" "\<forall>entries. e \<noteq> Intersection entries"
    | (timer) i where "e = Timeout i"
    | (batch) entries where "e = Intersection entries"
    | (call) msg ty where "e = Show msg ty"
    | (submit) "e = SubmitEvent"
  by (cases e) auto

text \<open>What one event does to the notifications, the style elements and the counter.\<close>

lemma dispatch_shows:
  "(sameDocument s (after (dispatch e s)) \<and> \<not> isShow e)
   \<or> (\<exists>i. e = Timeout i \<and> headStyles (after (dispatch e s)) = headStyles s
          \<and> nextNode (after (dispatch e s)) = nextNode s
          \<and> styles (after (dispatch e s)) = styles s
          \<and> observed (after (dispatch e s)) = observed s
          \<and> onlyFades (notifications s) (notifications (after (dispatch e s))))
   \<or> (\<exists>entries. e = Intersection entries \<and> headStyles (after (dispatch e s)) = headStyles s
          \<and> nextNode (after (dispatch e s)) = nextNode s
          \<and> notifications (after (dispatch e s)) = notifications s)
   \<or> (\<not> showsNothing e \<and> \<not> isTimeout e
        \<and> (\<exists>msg ty. sameDocument (showNotification msg ty s) (after (dispatch e s))))"
proof (cases e rule: event_kinds)
  case routine
  with sameDocument_routine [of e "s\<lparr>defaultPrevented := False\<rparr>"]
  have "sameDocument s (after (dispatch e s))"
    by (simp add: dispatch_def sameDocument_def)
  moreover from routine have "\<not> isShow e" by (cases e) simp_all
  ultimately show ?thesis by blast
next
  case (timer i)
  with timeout_document [of i "s\<lparr>defaultPrevented := False\<rparr>"] show ?thesis
    by (simp add: dispatch_def)
next
  case (batch entries)
  with forEachEntry_document [of 0 entries "s\<lparr>defaultPrevented := False\<rparr>"] show ?thesis
    by (simp add: dispatch_def observerCallback_def)
next
  case (call msg ty)
  have "sameDocument (showNotification msg ty s)
          (showNotification msg ty (s\<lparr>defaultPrevented := False\<rparr>))"
    by (simp add: sameDocument_def showNotification_notifications)
  with call show ?thesis
    by (auto simp add: dispatch_def)
next
  case submit
  show ?thesis
  proof (cases "waitlistForm (els s)")
    case None
    with submit show ?thesis by (simp add: dispatch_def sameDocument_def)
  next
    case (Some f)
    have same: "sameDocument (showNotification msg ty s)
          (showNotification msg ty (s\<lparr>defaultPrevented := False\<rparr>))" for msg ty
      by (simp add: sameDocument_def showNotification_notifications)
    from handleFormSubmit_document [of "s\<lparr>defaultPrevented := False\<rparr>" f]
    show ?thesis
    proof
      assume "sameDocument (s\<lparr>defaultPrevented := False\<rparr>)
                (after (handleFormSubmit f (s\<lparr>defaultPrevented := False\<rparr>)))"
      with submit Some show ?thesis by (simp add: dispatch_def sameDocument_def)
    next
      assume "\<exists>msg ty. sameDocument (showNotification msg ty (s\<lparr>defaultPrevented := False\<rparr>))
                (after (handleFormSubmit f (s\<lparr>defaultPrevented := False\<rparr>)))"
      then obtain msg ty where
        "sameDocument (showNotification msg ty (s\<lparr>defaultPrevented := False\<rparr>))
           (after (handleFormSubmit f (s\<lparr>defaultPrevented := False\<rparr>)))" by blast
      with same [of msg ty]
      have "sameDocument (showNotification msg ty s)
              (after (handleFormSubmit f (s\<lparr>defaultPrevented := False\<rparr>)))"
        by (simp add: sameDocument_def)
      with submit Some show ?thesis by (auto simp add: dispatch_def)
    qed
  qed
qed

lemma dispatch_at_most_one:
  assumes "length (notifications s) \<le> 1"
  shows "length (notifications (after (dispatch e s))) \<le> 1"
proof -
  have shown: "length (notifications (showNotification msg ty s)) \<le> 1" for msg ty
    using assms by (cases "notifications s") (simp_all add: showNotification_notifications)
  from dispatch_shows [of s e] shown assms show ?thesis
    by (auto simp add: sameDocument_def onlyFades_def)
qed

lemma dispatch_quiet:
  assumes "showsNothing e"
  shows "onlyFades (notifications s) (notifications (after (dispatch e s)))"
  using dispatch_shows [of s e] assms by (auto simp add: sameDocument_def)

lemma run_append: "run (xs @ ys) s = run ys (run xs s)"
  by (induction xs arbitrary: s) simp_all

lemma run_at_most_one:
  "length (notifications s) \<le> 1 \<Longrightarrow> length (notifications (run evs s)) \<le> 1"
proof (induction evs arbitrary: s)
  case Nil
  then show ?case by simp
next
  case (Cons e evs)
  from Cons.prems have "length (notifications (after (dispatch e s))) \<le> 1"
    by (rule dispatch_at_most_one)
  then show ?case using Cons.IH by simp
qed

lemma onlyFades_trans: "onlyFades xs ys \<Longrightarrow> onlyFades ys zs \<Longrightarrow> onlyFades xs zs"
  unfolding onlyFades_def by (metis (no_types, lifting) le_trans)

lemma run_quiet:
  "list_all showsNothing evs \<Longrightarrow> onlyFades (notifications s) (notifications (run evs s))"
proof (induction evs arbitrary: s)
  case Nil
  then show ?case by simp
next
  case (Cons e evs)
  from Cons.prems have "onlyFades (notifications s) (notifications (after (dispatch e s)))"
    by (simp add: dispatch_quiet)
  moreover from Cons have
    "onlyFades (notifications (after (dispatch e s))) (notifications (run evs (after (dispatch e s))))"
    by simp
  ultimately show ?case by (simp add: onlyFades_trans)
qed

text \<open>
  Claim C3. From a page with at most one element matching \<open>.notification\<close> (none
  after loading), after any sequence of events - calls of \<open>showNotification\<close>, form
  submissions, timers firing, any other event the script handles - at most one
  notification element is present. Right after a call exactly one is present, with
  the message and class of that call; and until the next call (whatever timers fire
  and whatever else happens) no more than one is present and any that is present
  has the message and class of that call: the last call wins.
\<close>

theorem last_notification_wins:
  assumes "length (notifications s) \<le> 1" and "list_all showsNothing later"
  shows "length (notifications (run evs s)) \<le> 1
    \<and> (\<exists>n. notifications (showNotification msg ty (run evs s)) = [n] \<and> message n = msg \<and>
          className n = ''notification notification--''
                          @ (case ty of None \<Rightarrow> ''success'' | Some t \<Rightarrow> t))
    \<and> length (notifications (run later (showNotification msg ty (run evs s)))) \<le> 1
    \<and> (\<forall>n\<in>set (notifications (run later (showNotification msg ty (run evs s)))).
          message n = msg \<and>
          className n = ''notification notification--''
                          @ (case ty of None \<Rightarrow> ''success'' | Some t \<Rightarrow> t))"
proof -
  let ?s1 = "run evs s"
  let ?s2 = "showNotification msg ty ?s1"
  have one: "length (notifications ?s1) \<le> 1"
    using assms(1) by (rule run_at_most_one)
  then have shown: "\<exists>n. notifications ?s2 = [n] \<and> message n = msg \<and>
          className n = ''notification notification--''
                          @ (case ty of None \<Rightarrow> ''success'' | Some t \<Rightarrow> t)"
    by (cases "notifications ?s1") (simp_all add: showNotification_notifications)
  then have one2: "length (notifications ?s2) \<le> 1" by auto
  have "onlyFades (notifications ?s2) (notifications (run later ?s2))"
    using assms(2) by (rule run_quiet)
  with shown have "\<forall>n\<in>set (notifications (run later ?s2)).
          message n = msg \<and>
          className n = ''notification notification--''
                          @ (case ty of None \<Rightarrow> ''success'' | Some t \<Rightarrow> t)"
    by (auto simp add: onlyFades_def)
  with one shown run_at_most_one [OF one2, of later] show ?thesis by blast
qed

theorem last_notification_wins_witness:
  "map message (notifications (run [Timeout 0, Timeout 1]
      (showNotification fillInAllFields (Some ''error'')
         (run [Show welcomeMessage None] examplePage)))) = [fillInAllFields]"
  using last_notification_wins [of examplePage "[Timeout 0, Timeout 1]"
      "[Show welcomeMessage None]" fillInAllFields "Some ''error''"]
  by (simp add: examplePage_def dispatch_def showNotification_def setTimeout_def timeout_def
      Let_def)

lemma dispatch_styles:
  "\<exists>k. headStyles (after (dispatch e s)) = headStyles s @ replicate k slideDownKeyframes
       \<and> nextNode (after (dispatch e s)) = nextNode s + k
       \<and> (isShow e \<longrightarrow> k = 1) \<and> (isTimeout e \<longrightarrow> k = 0)"
proof -
  from dispatch_shows [of s e]
  consider (same) "sameDocument s (after (dispatch e s))" "\<not> isShow e"
    | (quiet) "headStyles (after (dispatch e s)) = headStyles s"
        "nextNode (after (dispatch e s)) = nextNode s" "\<not> isShow e"
    | (shown) msg ty where "\<not> isTimeout e"
        "sameDocument (showNotification msg ty s) (after (dispatch e s))"
    by auto
  then show ?thesis
  proof cases
    case same
    then have "headStyles (after (dispatch e s)) = headStyles s @ replicate 0 slideDownKeyframes
       \<and> nextNode (after (dispatch e s)) = nextNode s + 0
       \<and> (isShow e \<longrightarrow> (0::nat) = 1) \<and> (isTimeout e \<longrightarrow> (0::nat) = 0)"
      by (simp add: sameDocument_def)
    then show ?thesis by blast
  next
    case quiet
    then have "headStyles (after (dispatch e s)) = headStyles s @ replicate 0 slideDownKeyframes
       \<and> nextNode (after (dispatch e s)) = nextNode s + 0
       \<and> (isShow e \<longrightarrow> (0::nat) = 1) \<and> (isTimeout e \<longrightarrow> (0::nat) = 0)"
      by simp
    then show ?thesis by blast
  next
    case shown
    then have "headStyles (after (dispatch e s)) = headStyles s @ replicate 1 slideDownKeyframes
       \<and> nextNode (after (dispatch e s)) = nextNode s + 1
       \<and> (isShow e \<longrightarrow> (1::nat) = 1) \<and> (isTimeout e \<longrightarrow> (1::nat) = 0)"
      by (simp add: sameDocument_def)
    then show ?thesis by blast
  qed
qed

lemma run_styles:
  "\<exists>k. headStyles (run evs s) = headStyles s @ replicate k slideDownKeyframes
       \<and> nextNode (run evs s) = nextNode s + k
       \<and> (list_all (\<lambda>e. isShow e \<or> isTimeout e) evs \<longrightarrow> k = length (filter isShow evs))"
proof (induction evs arbitrary: s)
  case Nil
  then show ?case by simp
next
  case (Cons e evs)
  let ?s1 = "after (dispatch e s)"
  from dispatch_styles [of e s] obtain k1 where
    k1: "headStyles ?s1 = headStyles s @ replicate k1 slideDownKeyframes"
      "nextNode ?s1 = nextNode s + k1" "isShow e \<longrightarrow> k1 = 1" "isTimeout e \<longrightarrow> k1 = 0"
    by blast
  from Cons.IH [of ?s1] obtain k2 where
    k2: "headStyles (run evs ?s1) = headStyles ?s1 @ replicate k2 slideDownKeyframes"
      "nextNode (run evs ?s1) = nextNode ?s1 + k2"
      "list_all (\<lambda>e. isShow e \<or> isTimeout e) evs \<longrightarrow> k2 = length (filter isShow evs)"
    by blast
  have "isShow e \<Longrightarrow> \<not> isTimeout e" by (cases e) simp_all
  with k1 k2 have
    "headStyles (run (e # evs) s) = headStyles s @ replicate (k1 + k2) slideDownKeyframes
       \<and> nextNode (run (e # evs) s) = nextNode s + (k1 + k2)
       \<and> (list_all (\<lambda>e. isShow e \<or> isTimeout e) (e # evs)
            \<longrightarrow> k1 + k2 = length (filter isShow (e # evs)))"
    by (auto simp add: replicate_add)
  then show ?case by blast
qed

text \<open>
  Claim C10. Every call of \<open>showNotification\<close> appends one \<open>slideDown\<close> style
  element to the head and creates one notification element. No event the script
  handles removes a style element: after any sequence of events the head holds the
  style elements it had, followed by one \<open>slideDown\<close> element for each notification
  created since; for a sequence of direct calls and timers that is one for each call.
  A timer that fires leaves the style elements alone and only restyles or detaches
  notifications.
\<close>

theorem showNotification_styles_accumulate:
  "headStyles (showNotification msg ty s) = headStyles s @ [slideDownKeyframes]
   \<and> nextNode (showNotification msg ty s) = Suc (nextNode s)
   \<and> nextNode s \<le> nextNode (run evs s)
   \<and> headStyles (run evs s)
       = headStyles s @ replicate (nextNode (run evs s) - nextNode s) slideDownKeyframes
   \<and> (list_all (\<lambda>e. isShow e \<or> isTimeout e) evs \<longrightarrow>
        headStyles (run evs s)
          = headStyles s @ replicate (length (filter isShow evs)) slideDownKeyframes)
   \<and> headStyles (after (timeout i s)) = headStyles s
   \<and> onlyFades (notifications s) (notifications (after (timeout i s)))"
proof -
  from run_styles [of evs s] obtain k where
    "headStyles (run evs s) = headStyles s @ replicate k slideDownKeyframes"
    "nextNode (run evs s) = nextNode s + k"
    "list_all (\<lambda>e. isShow e \<or> isTimeout e) evs \<longrightarrow> k = length (filter isShow evs)"
    by blast
  with timeout_document [of i s] show ?thesis by simp
qed

theorem showNotification_styles_accumulate_witness:
  "headStyles (run [Show welcomeMessage None, Timeout 0, Timeout 0, Show fillInAllFields (Some ''error'')]
      examplePage) = [slideDownKeyframes, slideDownKeyframes]"
  using showNotification_styles_accumulate [of welcomeMessage None examplePage
      "[Show welcomeMessage None, Timeout 0, Timeout 0, Show fillInAllFields (Some ''error'')]" 0]
  by (simp add: examplePage_def dispatch_def timeout_def)

section \<open>Reveal animator\<close>

lemma forEachEntry_untouched:
  "\<forall>e\<in>set es. isIntersecting e \<longrightarrow> target e \<noteq> t \<Longrightarrow>
   styles (forEachEntry k es s) t = styles s t"
  by (induction es arbitrary: k s) (auto simp add: revealEntry_def)

lemma forEachEntry_delay:
  "i < length es \<Longrightarrow> isIntersecting (es ! i) \<Longrightarrow>
   \<forall>j. i < j \<and> j < length es \<and> isIntersecting (es ! j) \<longrightarrow> target (es ! j) \<noteq> target (es ! i) \<Longrightarrow>
   animationDelayMs (styles (forEachEntry k es s) (target (es ! i))) = Some ((k + i) * 100)"
proof (induction es arbitrary: k s i)
  case Nil
  then show ?case by simp
next
  case (Cons e es)
  show ?case
  proof (cases i)
    case 0
    have later: "\<forall>x\<in>set es. isIntersecting x \<longrightarrow> target x \<noteq> target e"
    proof (intro ballI impI)
      fix x assume "x \<in> set es" and x: "isIntersecting x"
      then obtain j where j: "j < length es" "es ! j = x"
        by (auto simp add: in_set_conv_nth)
      with Cons.prems(3) [rule_format, of "Suc j"] 0 x show "target x \<noteq> target e"
        by simp
    qed
    from 0 Cons.prems have "isIntersecting e" by simp
    with 0 forEachEntry_untouched [OF later] show ?thesis
      by (simp add: revealEntry_def config_def)
  next
    case (Suc i')
    with Cons.prems have a: "i' < length es" "isIntersecting (es ! i')" by simp_all
    have b: "\<forall>j. i' < j \<and> j < length es \<and> isIntersecting (es ! j) \<longrightarrow> target (es ! j) \<noteq> target (es ! i')"
    proof (intro allI impI)
      fix j assume "i' < j \<and> j < length es \<and> isIntersecting (es ! j)"
      with Cons.prems(3) [rule_format, of "Suc j"] Suc show "target (es ! j) \<noteq> target (es ! i')"
        by simp
    qed
    from Cons.IH [OF a b] Suc show ?thesis by simp
  qed
qed

lemma filter_take_all:
  "i \<le> length es \<Longrightarrow> (length (filter P (take i es)) = i) = (\<forall>j<i. P (es ! j))"
proof (induction es arbitrary: i)
  case Nil
  then show ?case by simp
next
  case (Cons x xs)
  show ?case
  proof (cases i)
    case 0
    then show ?thesis by simp
  next
    case (Suc i')
    have le: "length (filter P (take i' xs)) \<le> i'"
      using length_filter_le [of P "take i' xs"] by simp
    from Suc Cons.prems have "i' \<le> length xs" by simp
    from Cons.IH [OF this] Suc le show ?thesis
      by (auto simp add: less_Suc_eq_0_disj)
  qed
qed

lemma forEachEntry_append:
  "forEachEntry k (xs @ ys) s = forEachEntry (k + length xs) ys (forEachEntry k xs s)"
  by (induction xs arbitrary: k s) simp_all

lemma observerCallback_step:
  assumes "i < length entries" and "isIntersecting (entries ! i)"
  shows "observerCallback (take (Suc i) entries) s
           = revealEntry i (target (entries ! i)) (observerCallback (take i entries) s)"
proof -
  from assms(1) have "take (Suc i) entries = take i entries @ [entries ! i]"
    by (simp add: take_Suc_conv_app_nth)
  moreover from assms(1) have "length (take i entries) = i" by simp
  ultimately show ?thesis
    using assms(2) by (simp add: observerCallback_def forEachEntry_append)
qed

lemma last_entry_for_element:
  assumes "i < length entries" and "isIntersecting (entries ! i)"
  shows "\<exists>j. i \<le> j \<and> j < length entries \<and> isIntersecting (entries ! j)
           \<and> target (entries ! j) = target (entries ! i)
           \<and> (\<forall>k. j < k \<and> k < length entries \<and> isIntersecting (entries ! k)
                  \<longrightarrow> target (entries ! k) \<noteq> target (entries ! i))"
proof -
  let ?S = "{j. j < length entries \<and> isIntersecting (entries ! j)
               \<and> target (entries ! j) = target (entries ! i)}"
  have fin: "finite ?S" by simp
  from assms have mem: "i \<in> ?S" by simp
  then have ne: "?S \<noteq> {}" by blast
  from Max_in [OF fin ne] have m: "Max ?S \<in> ?S" .
  from Max_ge [OF fin mem] have "i \<le> Max ?S" .
  moreover have "\<forall>k. Max ?S < k \<and> k < length entries \<and> isIntersecting (entries ! k)
                  \<longrightarrow> target (entries ! k) \<noteq> target (entries ! i)"
  proof (intro allI impI notI)
    fix k assume k: "Max ?S < k \<and> k < length entries \<and> isIntersecting (entries ! k)"
      and "target (entries ! k) = target (entries ! i)"
    then have "k \<in> ?S" by simp
    from Max_ge [OF fin this] k show False by simp
  qed
  ultimately show ?thesis using m by blast
qed

text \<open>
  Claim C6, as stated, fails: the delay is not computed from the index among the
  intersecting entries. In a batch whose first entry does not intersect and whose
  second does, the second entry's element gets 100 ms, where the index among the
  intersecting entries (0) would give 0 ms.
\<close>

theorem delay_counts_all_entries:
  "animationDelayMs (styles (observerCallback
      [\<lparr>target = 0, isIntersecting = False\<rparr>, \<lparr>target = 1, isIntersecting = True\<rparr>] examplePage) 1)
   \<noteq> Some (intersectingIndex
      [\<lparr>target = 0, isIntersecting = False\<rparr>, \<lparr>target = 1, isIntersecting = True\<rparr>] 1 * animationDelay config)"
  by (simp add: observerCallback_def revealEntry_def intersectingIndex_def config_def examplePage_def)

text \<open>
  Claim C6, amended. In every batch, when the callback processes an intersecting
  entry it assigns to the entry's element the delay (position of the entry in the
  whole \<open>entries\<close> array, counting the entries that do not intersect) times 100 ms.
  After the batch the element carries the delay of the last intersecting entry of
  the batch that is for it: its own position times 100 ms whenever no later
  intersecting entry of the batch is for the same element. The position equals the
  index among the intersecting entries exactly when every entry in front of it
  intersects.
\<close>

theorem delay_is_position_in_batch:
  assumes "i < length entries" and "isIntersecting (entries ! i)"
  shows "observerCallback (take (Suc i) entries) s
           = revealEntry i (target (entries ! i)) (observerCallback (take i entries) s)
    \<and> animationDelayMs (styles (observerCallback (take (Suc i) entries) s) (target (entries ! i)))
         = Some (i * 100)
    \<and> (\<exists>j. i \<le> j \<and> j < length entries \<and> isIntersecting (entries ! j)
           \<and> target (entries ! j) = target (entries ! i)
           \<and> (\<forall>k. j < k \<and> k < length entries \<and> isIntersecting (entries ! k)
                  \<longrightarrow> target (entries ! k) \<noteq> target (entries ! i))
           \<and> animationDelayMs (styles (observerCallback entries s) (target (entries ! i)))
                = Some (j * 100))
    \<and> ((\<forall>j. i < j \<and> j < length entries \<and> isIntersecting (entries ! j)
           \<longrightarrow> target (entries ! j) \<noteq> target (entries ! i))
        \<longrightarrow> animationDelayMs (styles (observerCallback entries s) (target (entries ! i)))
              = Some (i * 100))
    \<and> (i = intersectingIndex entries i \<longleftrightarrow> (\<forall>j<i. isIntersecting (entries ! j)))"
proof (intro conjI)
  show step: "observerCallback (take (Suc i) entries) s
           = revealEntry i (target (entries ! i)) (observerCallback (take i entries) s)"
    using assms by (rule observerCallback_step)
  show "animationDelayMs (styles (observerCallback (take (Suc i) entries) s) (target (entries ! i)))
         = Some (i * 100)"
    unfolding step by (simp add: revealEntry_def config_def)
  from last_entry_for_element [OF assms] obtain j where
    j: "i \<le> j" "j < length entries" "isIntersecting (entries ! j)"
      "target (entries ! j) = target (entries ! i)"
      "\<forall>k. j < k \<and> k < length entries \<and> isIntersecting (entries ! k)
                  \<longrightarrow> target (entries ! k) \<noteq> target (entries ! i)"
    by blast
  from j(4,5) have "\<forall>k. j < k \<and> k < length entries \<and> isIntersecting (entries ! k)
                  \<longrightarrow> target (entries ! k) \<noteq> target (entries ! j)" by simp
  from forEachEntry_delay [OF j(2) j(3) this, of 0 s] j(4)
  have "animationDelayMs (styles (observerCallback entries s) (target (entries ! i)))
                = Some (j * 100)"
    by (simp add: observerCallback_def)
  with j show "\<exists>j. i \<le> j \<and> j < length entries \<and> isIntersecting (entries ! j)
           \<and> target (entries ! j) = target (entries ! i)
           \<and> (\<forall>k. j < k \<and> k < length entries \<and> isIntersecting (entries ! k)
                  \<longrightarrow> target (entries ! k) \<noteq> target (entries ! i))
           \<and> animationDelayMs (styles (observerCallback entries s) (target (entries ! i)))
                = Some (j * 100)"
    by blast
  show "(\<forall>j. i < j \<and> j < length entries \<and> isIntersecting (entries ! j)
           \<longrightarrow> target (entries ! j) \<noteq> target (entries ! i))
        \<longrightarrow> animationDelayMs (styles (observerCallback entries s) (target (entries ! i)))
              = Some (i * 100)"
  proof
    assume a: "\<forall>j. i < j \<and> j < length entries \<and> isIntersecting (entries ! j)
           \<longrightarrow> target (entries ! j) \<noteq> target (entries ! i)"
    from forEachEntry_delay [OF assms a, of 0 s]
    show "animationDelayMs (styles (observerCallback entries s) (target (entries ! i)))
              = Some (i * 100)"
      by (simp add: observerCallback_def)
  qed
  from assms(1) filter_take_all [of i entries isIntersecting]
  show "i = intersectingIndex entries i \<longleftrightarrow> (\<forall>j<i. isIntersecting (entries ! j))"
    by (auto simp add: intersectingIndex_def)
qed

theorem delay_is_position_in_batch_witness:
  "animationDelayMs (styles (observerCallback
      [\<lparr>target = 0, isIntersecting = False\<rparr>, \<lparr>target = 1, isIntersecting = True\<rparr>]
      examplePage) 1) = Some 100"
proof -
  have a: "1 < length [\<lparr>target = 0, isIntersecting = False\<rparr>, \<lparr>target = 1::nat, isIntersecting = True\<rparr>]"
    by simp
  have b: "isIntersecting ([\<lparr>target = 0, isIntersecting = False\<rparr>, \<lparr>target = 1::nat, isIntersecting = True\<rparr>] ! 1)"
    by simp
  from delay_is_position_in_batch [OF a b, of examplePage, THEN conjunct2, THEN conjunct1]
  show ?thesis by simp
qed

text \<open>An element reported twice in a batch ends with the later position.\<close>

lemma delay_of_repeated_element:
  "animationDelayMs (styles (observerCallback
      [\<lparr>target = 0, isIntersecting = True\<rparr>, \<lparr>target = 1, isIntersecting = False\<rparr>,
       \<lparr>target = 0, isIntersecting = True\<rparr>] examplePage) 0) = Some 200"
  by (simp add: observerCallback_def revealEntry_def config_def examplePage_def)

lemma forEachEntry_observed:
  "observed (forEachEntry k es s) = observed s - target ` {e \<in> set es. isIntersecting e}"
  by (induction es arbitrary: k s) (auto simp add: revealEntry_def)

lemma classList_add_keeps: "classList_contains c cs \<Longrightarrow> classList_contains c (classList_add d cs)"
  by (simp add: classList_contains_def classList_add_def)

lemma forEachEntry_class_kept:
  "classList_contains c (revealClassList (styles s t)) \<Longrightarrow>
   classList_contains c (revealClassList (styles (forEachEntry k es s) t))"
proof (induction es arbitrary: k s)
  case Nil
  then show ?case by simp
next
  case (Cons e es)
  from Cons.prems
  have "classList_contains c (revealClassList (styles (revealEntry k (target e) s) t))"
    by (auto simp add: revealEntry_def classList_add_keeps)
  with Cons show ?case by simp
qed

lemma forEachEntry_reveals:
  "e \<in> set es \<Longrightarrow> isIntersecting e \<Longrightarrow>
   classList_contains ''animate-in'' (revealClassList (styles (forEachEntry k es s) (target e)))"
proof (induction es arbitrary: k s)
  case Nil
  then show ?case by simp
next
  case (Cons x es)
  show ?case
  proof (cases "x = e")
    case True
    with Cons.prems(2) show ?thesis
      by (simp add: forEachEntry_class_kept revealEntry_def)
  next
    case False
    with Cons show ?thesis by simp
  qed
qed

lemma dispatch_unobserved:
  assumes "t \<notin> observed s" and "deliverable [e] s"
  shows "styles (after (dispatch e s)) t = styles s t \<and> t \<notin> observed (after (dispatch e s))"
  using dispatch_shows [of s e]
proof (elim disjE exE conjE)
  assume "sameDocument s (after (dispatch e s))"
  with assms(1) show ?thesis by (simp add: sameDocument_def)
next
  fix i assume "styles (after (dispatch e s)) = styles s" "observed (after (dispatch e s)) = observed s"
  with assms(1) show ?thesis by simp
next
  fix entries assume e: "e = Intersection entries"
  with assms have "\<forall>x\<in>set entries. isIntersecting x \<longrightarrow> target x \<noteq> t"
    by (auto simp add: list_all_iff)
  from forEachEntry_untouched [OF this, of 0 "s\<lparr>defaultPrevented := False\<rparr>"] e assms(1)
  show ?thesis
    by (simp add: dispatch_def observerCallback_def forEachEntry_observed)
next
  fix msg ty assume "sameDocument (showNotification msg ty s) (after (dispatch e s))"
  with assms(1) show ?thesis by (simp add: sameDocument_def)
qed

lemma deliverable_Cons: "deliverable (e # es) s \<Longrightarrow> deliverable [e] s \<and> deliverable es (after (dispatch e s))"
  by (cases e) simp_all

lemma run_unobserved:
  "t \<notin> observed s \<Longrightarrow> deliverable evs s \<Longrightarrow>
   styles (run evs s) t = styles s t \<and> t \<notin> observed (run evs s)"
proof (induction evs arbitrary: s)
  case Nil
  then show ?case by simp
next
  case (Cons e evs)
  from deliverable_Cons [OF Cons.prems(2)]
  have d: "deliverable [e] s" "deliverable evs (after (dispatch e s))" by simp_all
  from dispatch_unobserved [OF Cons.prems(1) d(1)]
  have s1: "styles (after (dispatch e s)) t = styles s t" "t \<notin> observed (after (dispatch e s))"
    by simp_all
  from Cons.IH [OF s1(2) d(2)] s1(1) show ?case by simp
qed

text \<open>
  Claim C7. When a batch holds an intersecting entry for an element, the callback
  leaves the element with the class \<open>animate-in\<close> and no longer observed. From
  then on, through any sequence of events in which the browser delivers intersection
  entries only for observed elements, the element's classes and inline style stay
  exactly as that batch left them and it stays unobserved: no later intersection
  has any effect on it.
\<close>

theorem revealed_once:
  assumes "e \<in> set entries" and "isIntersecting e"
    and "deliverable later (observerCallback entries s)"
  shows "classList_contains ''animate-in''
           (revealClassList (styles (observerCallback entries s) (target e)))
    \<and> target e \<notin> observed (observerCallback entries s)
    \<and> styles (run later (observerCallback entries s)) (target e)
         = styles (observerCallback entries s) (target e)
    \<and> target e \<notin> observed (run later (observerCallback entries s))"
proof -
  from assms(1,2) have gone: "target e \<notin> observed (observerCallback entries s)"
    by (auto simp add: observerCallback_def forEachEntry_observed)
  from assms(1,2) have "classList_contains ''animate-in''
           (revealClassList (styles (observerCallback entries s) (target e)))"
    by (simp add: observerCallback_def forEachEntry_reveals)
  with gone run_unobserved [OF gone assms(3)] show ?thesis by simp
qed

theorem revealed_once_witness:
  "animationDelayMs (styles (run [Intersection [\<lparr>target = 1, isIntersecting = True\<rparr>], ScrollEvent,
        Intersection [\<lparr>target = 2, isIntersecting = True\<rparr>]]
      (observerCallback [\<lparr>target = 0, isIntersecting = True\<rparr>, \<lparr>target = 1, isIntersecting = False\<rparr>]
        (setupScrollAnimations examplePage))) 0) = Some 0"
  using revealed_once [of "\<lparr>target = 0, isIntersecting = True\<rparr>"
      "[\<lparr>target = 0, isIntersecting = True\<rparr>, \<lparr>target = 1, isIntersecting = False\<rparr>]"
      "[Intersection [\<lparr>target = 1, isIntersecting = True\<rparr>], ScrollEvent,
        Intersection [\<lparr>target = 2, isIntersecting = True\<rparr>]]"
      "setupScrollAnimations examplePage"]
  by (simp add: examplePage_def setupScrollAnimations_def observeElement_def observerCallback_def
      revealEntry_def dispatch_def onScroll_def config_def)

end
